theory Spec2Isabelle
  imports Main "HOL-Library.Word"
begin

section \<open>Data model\<close>

text \<open>
  The reconciler of the SimpleApp operator (\<open>Reconcile\<close>, \<open>ensureDeployment\<close>,
  \<open>ensureService\<close>, \<open>ensureIngress\<close> of package \<open>controller\<close>) is embedded over an
  explicit model of the cluster API it talks to. Go's \<open>int32\<close> is a 32-bit word, a
  \<open>map[string]string\<close> is an association list, a pointer field is an \<open>option\<close>.
\<close>

type_synonym int32 = "32 word"
type_synonym int64 = "64 word"
type_synonym string_map = "(string \<times> string) list"

text \<open>An object key is \<open>client.ObjectKey\<close>: namespace first, then name.\<close>

type_synonym ObjectKey = "string \<times> string"

record OwnerReference =
  ref_APIVersion :: string
  ref_Kind :: string
  ref_Name :: string
  ref_UID :: string
  ref_Controller :: "bool option"
  ref_BlockOwnerDeletion :: "bool option"

record ObjectMeta =
  Name :: string
  Namespace :: string
  UID :: string
  Labels :: string_map
  Annotations :: string_map
  OwnerReferences :: "OwnerReference list"

subsection \<open>The declaration: \<open>api/v1/simpleapp_types.go\<close>\<close>

record SimpleAppSpec =
  Image :: string
  Replicas :: int32
  ContainerPort :: int32
  ServicePort :: int32

record SimpleAppStatus =
  ReadyReplicas :: int32
  ServiceStatus :: string

record SimpleApp =
  app_meta :: ObjectMeta
  Spec :: SimpleAppSpec
  Status :: SimpleAppStatus

subsection \<open>The dependent objects\<close>

text \<open>
  Only the fields the reconciler writes or reads are kept, plus enough neighbours to
  state what it leaves alone. For a Deployment: \<open>dep_Replicas\<close> is \<open>Spec.Replicas\<close>
  (a pointer), \<open>dep_Selector\<close> is \<open>Spec.Selector.MatchLabels\<close> (behind a pointer),
  \<open>dep_TemplateLabels\<close> is \<open>Spec.Template.ObjectMeta.Labels\<close>, \<open>dep_Containers\<close>
  is \<open>Spec.Template.Spec.Containers\<close> and \<open>dep_ReadyReplicas\<close> is
  \<open>Status.ReadyReplicas\<close>.
\<close>

record Container =
  c_Name :: string
  c_Image :: string
  c_ImagePullPolicy :: string
  c_Ports :: "int32 list"

record Deployment =
  dep_meta :: ObjectMeta
  dep_Replicas :: "int32 option"
  dep_Selector :: "string_map option"
  dep_TemplateLabels :: string_map
  dep_Containers :: "Container list"
  dep_ReadyReplicas :: int32

datatype IntOrStringType = IntType | StringType

record IntOrString =
  ios_Type :: IntOrStringType
  ios_IntVal :: int32
  ios_StrVal :: string

record ServicePort =
  sp_Name :: string
  sp_Protocol :: string
  sp_Port :: int32
  sp_TargetPort :: IntOrString
  sp_NodePort :: int32

record Service =
  svc_meta :: ObjectMeta
  svc_Selector :: string_map
  svc_Ports :: "ServicePort list"
  svc_Type :: string

text \<open>
  An ingress path keeps \<open>Backend.Service.Name\<close> and \<open>Backend.Service.Port.Number\<close>;
  a rule keeps its host and \<open>IngressRuleValue.HTTP.Paths\<close>.
\<close>

record HTTPIngressPath =
  path_Path :: string
  path_PathType :: "string option"
  path_ServiceName :: string
  path_ServicePort :: int32

record IngressRule =
  rule_Host :: string
  rule_Paths :: "HTTPIngressPath list"

record Ingress =
  ing_meta :: ObjectMeta
  ing_IngressClassName :: "string option"
  ing_Rules :: "IngressRule list"

section \<open>The cluster API\<close>

text \<open>
  Errors are values. \<open>NotFound\<close> and \<open>AlreadyExists\<close> are the API server's answers
  about the store, \<open>ApiFailure\<close> is any other failure of a call (conflict, timeout,
  server error), \<open>OwnerError\<close> is a failure of \<open>SetControllerReference\<close>, and
  \<open>Panic\<close> is a Go run-time panic (nil dereference, index out of range).
\<close>

datatype error = NotFound | AlreadyExists | ApiFailure string | OwnerError string | Panic

datatype api_call =
    GetSimpleApp ObjectKey
  | UpdateStatus SimpleApp
  | GetDeployment ObjectKey
  | CreateDeployment Deployment
  | UpdateDeployment Deployment
  | GetService ObjectKey
  | CreateService Service
  | UpdateService Service
  | GetIngress ObjectKey
  | CreateIngress Ingress
  | UpdateIngress Ingress

text \<open>
  The state of the world: the four stores of the API server, the process environment,
  the outcome script of the calls to come (\<open>Some msg\<close> makes the next call fail with
  \<open>ApiFailure msg\<close>; \<open>None\<close>, or an exhausted script, lets it through), and the log
  of every call issued so far.
\<close>

record cluster =
  simpleapps :: "ObjectKey \<rightharpoonup> SimpleApp"
  deployments :: "ObjectKey \<rightharpoonup> Deployment"
  services :: "ObjectKey \<rightharpoonup> Service"
  ingresses :: "ObjectKey \<rightharpoonup> Ingress"
  environ :: string_map
  faults :: "string option list"
  trace :: "api_call list"

definition issue :: "api_call \<Rightarrow> cluster \<Rightarrow> string option \<times> cluster" where
  "issue c w =
     (case faults w of
        [] \<Rightarrow> (None, w\<lparr>trace := trace w @ [c]\<rparr>)
      | f # fs \<Rightarrow> (f, w\<lparr>faults := fs, trace := trace w @ [c]\<rparr>))"

definition key_of :: "ObjectMeta \<Rightarrow> ObjectKey" where
  "key_of m = (Namespace m, Name m)"

definition IgnoreNotFound :: "error \<Rightarrow> error option" where
  "IgnoreNotFound e = (if e = NotFound then None else Some e)"

definition os_Getenv :: "string \<Rightarrow> cluster \<Rightarrow> string" where
  "os_Getenv k w = (case map_of (environ w) k of None \<Rightarrow> [] | Some v \<Rightarrow> v)"

subsection \<open>SimpleApp: \<open>r.Get\<close> and \<open>r.Status().Update\<close>\<close>

definition Get_SimpleApp :: "ObjectKey \<Rightarrow> cluster \<Rightarrow> (error + SimpleApp) \<times> cluster" where
  "Get_SimpleApp k w =
     (case issue (GetSimpleApp k) w of
        (Some msg, w') \<Rightarrow> (Inl (ApiFailure msg), w')
      | (None, w') \<Rightarrow>
          (case simpleapps w' k of
             None \<Rightarrow> (Inl NotFound, w')
           | Some a \<Rightarrow> (Inr a, w')))"

text \<open>The status subresource: only the status of the stored object is replaced.\<close>

definition Status_Update :: "SimpleApp \<Rightarrow> cluster \<Rightarrow> error option \<times> cluster" where
  "Status_Update a w =
     (case issue (UpdateStatus a) w of
        (Some msg, w') \<Rightarrow> (Some (ApiFailure msg), w')
      | (None, w') \<Rightarrow>
          (case simpleapps w' (key_of (app_meta a)) of
             None \<Rightarrow> (Some NotFound, w')
           | Some stored \<Rightarrow>
               (None, w'\<lparr>simpleapps :=
                  (simpleapps w')(key_of (app_meta a) \<mapsto> stored\<lparr>Status := Status a\<rparr>)\<rparr>)))"

subsection \<open>Deployments\<close>

definition Get_Deployment :: "ObjectKey \<Rightarrow> cluster \<Rightarrow> (error + Deployment) \<times> cluster" where
  "Get_Deployment k w =
     (case issue (GetDeployment k) w of
        (Some msg, w') \<Rightarrow> (Inl (ApiFailure msg), w')
      | (None, w') \<Rightarrow>
          (case deployments w' k of
             None \<Rightarrow> (Inl NotFound, w')
           | Some d \<Rightarrow> (Inr d, w')))"

definition Create_Deployment :: "Deployment \<Rightarrow> cluster \<Rightarrow> error option \<times> cluster" where
  "Create_Deployment d w =
     (case issue (CreateDeployment d) w of
        (Some msg, w') \<Rightarrow> (Some (ApiFailure msg), w')
      | (None, w') \<Rightarrow>
          (case deployments w' (key_of (dep_meta d)) of
             Some _ \<Rightarrow> (Some AlreadyExists, w')
           | None \<Rightarrow>
               (None, w'\<lparr>deployments := (deployments w')(key_of (dep_meta d) \<mapsto> d)\<rparr>)))"

definition Update_Deployment :: "Deployment \<Rightarrow> cluster \<Rightarrow> error option \<times> cluster" where
  "Update_Deployment d w =
     (case issue (UpdateDeployment d) w of
        (Some msg, w') \<Rightarrow> (Some (ApiFailure msg), w')
      | (None, w') \<Rightarrow>
          (case deployments w' (key_of (dep_meta d)) of
             None \<Rightarrow> (Some NotFound, w')
           | Some _ \<Rightarrow>
               (None, w'\<lparr>deployments := (deployments w')(key_of (dep_meta d) \<mapsto> d)\<rparr>)))"

subsection \<open>Services\<close>

definition Get_Service :: "ObjectKey \<Rightarrow> cluster \<Rightarrow> (error + Service) \<times> cluster" where
  "Get_Service k w =
     (case issue (GetService k) w of
        (Some msg, w') \<Rightarrow> (Inl (ApiFailure msg), w')
      | (None, w') \<Rightarrow>
          (case services w' k of
             None \<Rightarrow> (Inl NotFound, w')
           | Some s \<Rightarrow> (Inr s, w')))"

definition Create_Service :: "Service \<Rightarrow> cluster \<Rightarrow> error option \<times> cluster" where
  "Create_Service s w =
     (case issue (CreateService s) w of
        (Some msg, w') \<Rightarrow> (Some (ApiFailure msg), w')
      | (None, w') \<Rightarrow>
          (case services w' (key_of (svc_meta s)) of
             Some _ \<Rightarrow> (Some AlreadyExists, w')
           | None \<Rightarrow>
               (None, w'\<lparr>services := (services w')(key_of (svc_meta s) \<mapsto> s)\<rparr>)))"

definition Update_Service :: "Service \<Rightarrow> cluster \<Rightarrow> error option \<times> cluster" where
  "Update_Service s w =
     (case issue (UpdateService s) w of
        (Some msg, w') \<Rightarrow> (Some (ApiFailure msg), w')
      | (None, w') \<Rightarrow>
          (case services w' (key_of (svc_meta s)) of
             None \<Rightarrow> (Some NotFound, w')
           | Some _ \<Rightarrow>
               (None, w'\<lparr>services := (services w')(key_of (svc_meta s) \<mapsto> s)\<rparr>)))"

subsection \<open>Ingresses\<close>

definition Get_Ingress :: "ObjectKey \<Rightarrow> cluster \<Rightarrow> (error + Ingress) \<times> cluster" where
  "Get_Ingress k w =
     (case issue (GetIngress k) w of
        (Some msg, w') \<Rightarrow> (Inl (ApiFailure msg), w')
      | (None, w') \<Rightarrow>
          (case ingresses w' k of
             None \<Rightarrow> (Inl NotFound, w')
           | Some i \<Rightarrow> (Inr i, w')))"

definition Create_Ingress :: "Ingress \<Rightarrow> cluster \<Rightarrow> error option \<times> cluster" where
  "Create_Ingress i w =
     (case issue (CreateIngress i) w of
        (Some msg, w') \<Rightarrow> (Some (ApiFailure msg), w')
      | (None, w') \<Rightarrow>
          (case ingresses w' (key_of (ing_meta i)) of
             Some _ \<Rightarrow> (Some AlreadyExists, w')
           | None \<Rightarrow>
               (None, w'\<lparr>ingresses := (ingresses w')(key_of (ing_meta i) \<mapsto> i)\<rparr>)))"

definition Update_Ingress :: "Ingress \<Rightarrow> cluster \<Rightarrow> error option \<times> cluster" where
  "Update_Ingress i w =
     (case issue (UpdateIngress i) w of
        (Some msg, w') \<Rightarrow> (Some (ApiFailure msg), w')
      | (None, w') \<Rightarrow>
          (case ingresses w' (key_of (ing_meta i)) of
             None \<Rightarrow> (Some NotFound, w')
           | Some _ \<Rightarrow>
               (None, w'\<lparr>ingresses := (ingresses w')(key_of (ing_meta i) \<mapsto> i)\<rparr>)))"

section \<open>Library calls of the reconciler\<close>

text \<open>
  \<open>runtime.Scheme\<close> is reduced to what the reconciler needs of it: the API version the
  kind \<open>SimpleApp\<close> is registered under, if any.
\<close>

type_synonym Scheme = "string option"

definition controllerRef :: "string \<Rightarrow> SimpleApp \<Rightarrow> OwnerReference" where
  "controllerRef gv cr =
     \<lparr>ref_APIVersion = gv, ref_Kind = ''SimpleApp'',
      ref_Name = Name (app_meta cr), ref_UID = UID (app_meta cr),
      ref_Controller = Some True, ref_BlockOwnerDeletion = Some True\<rparr>"

definition referSameObject :: "OwnerReference \<Rightarrow> OwnerReference \<Rightarrow> bool" where
  "referSameObject a b \<longleftrightarrow>
     ref_APIVersion a = ref_APIVersion b \<and> ref_Kind a = ref_Kind b \<and> ref_Name a = ref_Name b"

fun upsertOwnerRef :: "OwnerReference \<Rightarrow> OwnerReference list \<Rightarrow> OwnerReference list" where
  "upsertOwnerRef r [] = [r]"
| "upsertOwnerRef r (x # xs) =
     (if referSameObject x r then r # xs else x # upsertOwnerRef r xs)"

text \<open>
  \<open>ctrl.SetControllerReference(cr, obj, r.Scheme)\<close> of controller-runtime, on the
  metadata of the controlled object: the owner must live in the namespace of the object,
  its kind must be registered in the scheme, the object must not be controlled by another
  owner already; then the controller reference is inserted.
\<close>

definition SetControllerReference ::
  "SimpleApp \<Rightarrow> ObjectMeta \<Rightarrow> Scheme \<Rightarrow> error + ObjectMeta" where
  "SetControllerReference cr m scheme =
     (if Namespace (app_meta cr) \<noteq> [] \<and>
         (Namespace m = [] \<or> Namespace m \<noteq> Namespace (app_meta cr))
      then Inl (OwnerError ''owner and object namespaces differ'')
      else case scheme of
        None \<Rightarrow> Inl (OwnerError ''no kind is registered for the owner'')
      | Some gv \<Rightarrow>
          (if \<exists>x \<in> set (OwnerReferences m).
                ref_Controller x = Some True \<and> \<not> referSameObject x (controllerRef gv cr)
           then Inl (OwnerError ''object is already owned by another controller'')
           else Inr (m\<lparr>OwnerReferences :=
                        upsertOwnerRef (controllerRef gv cr) (OwnerReferences m)\<rparr>)))"

text \<open>\<open>int(x)\<close> on an \<open>int32\<close> sign-extends; \<open>intstr.FromInt\<close> keeps the low 32 bits.\<close>

definition int_of_int32 :: "int32 \<Rightarrow> int64" where
  "int_of_int32 x = scast x"

definition FromInt :: "int64 \<Rightarrow> IntOrString" where
  "FromInt v = \<lparr>ios_Type = IntType, ios_IntVal = ucast v, ios_StrVal = []\<rparr>"

definition emptyMeta :: "ObjectMeta" where
  "emptyMeta =
     \<lparr>Name = [], Namespace = [], UID = [], Labels = [], Annotations = [],
      OwnerReferences = []\<rparr>"

section \<open>The reconciler\<close>

subsection \<open>\<open>ensureDeployment\<close>\<close>

text \<open>The struct literal \<open>dep\<close> at the head of \<open>ensureDeployment\<close>.\<close>

definition desiredDeployment :: "SimpleApp \<Rightarrow> Deployment" where
  "desiredDeployment cr =
     \<lparr>dep_meta = emptyMeta\<lparr>Name := Name (app_meta cr), Namespace := Namespace (app_meta cr)\<rparr>,
      dep_Replicas = Some (Replicas (Spec cr)),
      dep_Selector = Some [(''app'', Name (app_meta cr))],
      dep_TemplateLabels = [(''app'', Name (app_meta cr))],
      dep_Containers =
        [\<lparr>c_Name = ''app'', c_Image = Image (Spec cr),
          c_ImagePullPolicy = ''IfNotPresent'',
          c_Ports = [ContainerPort (Spec cr)]\<rparr>],
      dep_ReadyReplicas = 0\<rparr>"

definition ensureDeployment ::
  "Scheme \<Rightarrow> SimpleApp \<Rightarrow> cluster \<Rightarrow> (error + Deployment) \<times> cluster" where
  "ensureDeployment scheme cr w =
     (case SetControllerReference cr (dep_meta (desiredDeployment cr)) scheme of
        Inl e \<Rightarrow> (Inl e, w)
      | Inr m \<Rightarrow>
          (let dep = (desiredDeployment cr)\<lparr>dep_meta := m\<rparr> in
           case Get_Deployment (key_of (dep_meta dep)) w of
             (Inl err, w1) \<Rightarrow>
               (case IgnoreNotFound err of
                  Some e \<Rightarrow> (Inl e, w1)
                | None \<Rightarrow>
                    (case Create_Deployment dep w1 of
                       (Some e, w2) \<Rightarrow> (Inl e, w2)
                     | (None, w2) \<Rightarrow> (Inr dep, w2)))
           | (Inr existing, w1) \<Rightarrow>
               (case dep_Replicas existing of
                  None \<Rightarrow> (Inl Panic, w1)
                | Some existingReplicas \<Rightarrow>
                    (case dep_Replicas dep of
                       None \<Rightarrow> (Inl Panic, w1)
                     | Some depReplicas \<Rightarrow>
                         (case dep_Containers existing of
                            [] \<Rightarrow> (Inl Panic, w1)
                          | c # cs \<Rightarrow>
                              (case dep_Containers dep of
                                 [] \<Rightarrow> (Inl Panic, w1)
                               | dc # _ \<Rightarrow>
                                   (let needsUpdate =
                                          (existingReplicas \<noteq> depReplicas \<or>
                                           c_Image c \<noteq> c_Image dc)
                                    in if needsUpdate
                                       then
                                         (let existing' = existing
                                                \<lparr>dep_Replicas := dep_Replicas dep,
                                                 dep_Containers := c\<lparr>c_Image := c_Image dc\<rparr> # cs\<rparr>
                                          in case Update_Deployment existing' w1 of
                                               (Some e, w2) \<Rightarrow> (Inl e, w2)
                                             | (None, w2) \<Rightarrow> (Inr existing', w2))
                                       else (Inr existing, w1))))))))"

subsection \<open>\<open>ensureService\<close>\<close>

definition desiredService :: "SimpleApp \<Rightarrow> Service" where
  "desiredService cr =
     \<lparr>svc_meta = emptyMeta\<lparr>Name := Name (app_meta cr), Namespace := Namespace (app_meta cr)\<rparr>,
      svc_Selector = [(''app'', Name (app_meta cr))],
      svc_Ports =
        [\<lparr>sp_Name = [], sp_Protocol = [], sp_Port = ServicePort (Spec cr),
          sp_TargetPort = FromInt (int_of_int32 (ContainerPort (Spec cr))),
          sp_NodePort = 0\<rparr>],
      svc_Type = ''ClusterIP''\<rparr>"

definition ensureService ::
  "Scheme \<Rightarrow> SimpleApp \<Rightarrow> cluster \<Rightarrow> (error + Service) \<times> cluster" where
  "ensureService scheme cr w =
     (case SetControllerReference cr (svc_meta (desiredService cr)) scheme of
        Inl e \<Rightarrow> (Inl e, w)
      | Inr m \<Rightarrow>
          (let svc = (desiredService cr)\<lparr>svc_meta := m\<rparr> in
           case Get_Service (key_of (svc_meta svc)) w of
             (Inl err, w1) \<Rightarrow>
               (case IgnoreNotFound err of
                  Some e \<Rightarrow> (Inl e, w1)
                | None \<Rightarrow>
                    (case Create_Service svc w1 of
                       (Some e, w2) \<Rightarrow> (Inl e, w2)
                     | (None, w2) \<Rightarrow> (Inr svc, w2)))
           | (Inr existing, w1) \<Rightarrow>
               (case svc_Ports existing of
                  [] \<Rightarrow> (Inl Panic, w1)
                | p # ps \<Rightarrow>
                    (case svc_Ports svc of
                       [] \<Rightarrow> (Inl Panic, w1)
                     | q # _ \<Rightarrow>
                         (if sp_Port p \<noteq> sp_Port q \<or> sp_TargetPort p \<noteq> sp_TargetPort q
                          then
                            (let existing' = existing\<lparr>svc_Ports := svc_Ports svc\<rparr>
                             in case Update_Service existing' w1 of
                                  (Some e, w2) \<Rightarrow> (Inl e, w2)
                                | (None, w2) \<Rightarrow> (Inr existing', w2))
                          else (Inr existing, w1))))))"

subsection \<open>\<open>ensureIngress\<close>\<close>

definition desiredIngress :: "string \<Rightarrow> SimpleApp \<Rightarrow> Ingress" where
  "desiredIngress ingressClassName cr =
     \<lparr>ing_meta = emptyMeta
        \<lparr>Name := Name (app_meta cr) @ ''-ingress'',
         Namespace := Namespace (app_meta cr),
         Annotations := [(''kubernetes.io/ingress.class'', ingressClassName)]\<rparr>,
      ing_IngressClassName = Some ingressClassName,
      ing_Rules =
        [\<lparr>rule_Host = Name (app_meta cr) @ ''.local'',
          rule_Paths =
            [\<lparr>path_Path = ''/'', path_PathType = Some ''Prefix'',
              path_ServiceName = Name (app_meta cr),
              path_ServicePort = ServicePort (Spec cr)\<rparr>]\<rparr>]\<rparr>"

text \<open>The result \<open>Inr None\<close> is Go's \<open>(nil, nil)\<close>.\<close>

definition ensureIngress ::
  "Scheme \<Rightarrow> SimpleApp \<Rightarrow> cluster \<Rightarrow> (error + Ingress option) \<times> cluster" where
  "ensureIngress scheme cr w =
     (let ingressClassName = os_Getenv ''INGRESS_CLASS_NAME'' w in
      if ingressClassName = [] then (Inr None, w)
      else
        case SetControllerReference cr (ing_meta (desiredIngress ingressClassName cr)) scheme of
          Inl e \<Rightarrow> (Inl e, w)
        | Inr m \<Rightarrow>
            (let ingress = (desiredIngress ingressClassName cr)\<lparr>ing_meta := m\<rparr> in
             case Get_Ingress (key_of (ing_meta ingress)) w of
               (Inl err, w1) \<Rightarrow>
                 (case IgnoreNotFound err of
                    Some e \<Rightarrow> (Inl e, w1)
                  | None \<Rightarrow>
                      (case Create_Ingress ingress w1 of
                         (Some e, w2) \<Rightarrow> (Inl e, w2)
                       | (None, w2) \<Rightarrow> (Inr (Some ingress), w2)))
             | (Inr existing, w1) \<Rightarrow>
                 (if ing_IngressClassName existing \<noteq> None \<and>
                     ing_IngressClassName existing \<noteq> Some ingressClassName
                  then
                    (let existing' = existing\<lparr>ing_IngressClassName := Some ingressClassName\<rparr>
                     in case Update_Ingress existing' w1 of
                          (Some e, w2) \<Rightarrow> (Inl e, w2)
                        | (None, w2) \<Rightarrow> (Inr (Some existing'), w2))
                  else (Inr (Some existing), w1))))"

subsection \<open>\<open>Reconcile\<close>\<close>

text \<open>The result is the error of Go's \<open>(ctrl.Result{}, error)\<close>; \<open>None\<close> is \<open>nil\<close>.\<close>

definition Reconcile :: "Scheme \<Rightarrow> ObjectKey \<Rightarrow> cluster \<Rightarrow> error option \<times> cluster" where
  "Reconcile scheme req w =
     (case Get_SimpleApp req w of
        (Inl err, w1) \<Rightarrow> (IgnoreNotFound err, w1)
      | (Inr simpleApp, w1) \<Rightarrow>
          (case ensureDeployment scheme simpleApp w1 of
             (Inl e, w2) \<Rightarrow> (Some e, w2)
           | (Inr deployment, w2) \<Rightarrow>
               (case ensureService scheme simpleApp w2 of
                  (Inl e, w3) \<Rightarrow> (Some e, w3)
                | (Inr _, w3) \<Rightarrow>
                    (case ensureIngress scheme simpleApp w3 of
                       (Inl e, w4) \<Rightarrow> (Some e, w4)
                     | (Inr _, w4) \<Rightarrow>
                         (if ReadyReplicas (Status simpleApp) \<noteq> dep_ReadyReplicas deployment
                          then
                            (let simpleApp' = simpleApp
                                   \<lparr>Status := (Status simpleApp)
                                      \<lparr>ReadyReplicas := dep_ReadyReplicas deployment\<rparr>\<rparr>
                             in Status_Update simpleApp' w4)
                          else (None, w4))))))"

section \<open>Observations on a run\<close>

text \<open>A call is mutating when it is a create, an update or a status update.\<close>

fun is_mutating :: "api_call \<Rightarrow> bool" where
  "is_mutating (GetSimpleApp _) = False"
| "is_mutating (GetDeployment _) = False"
| "is_mutating (GetService _) = False"
| "is_mutating (GetIngress _) = False"
| "is_mutating _ = True"

definition mutating_calls :: "cluster \<Rightarrow> api_call list" where
  "mutating_calls w = filter is_mutating (trace w)"

fun is_ingress_call :: "api_call \<Rightarrow> bool" where
  "is_ingress_call (GetIngress _) = True"
| "is_ingress_call (CreateIngress _) = True"
| "is_ingress_call (UpdateIngress _) = True"
| "is_ingress_call _ = False"

fun status_write :: "api_call \<Rightarrow> SimpleApp option" where
  "status_write (UpdateStatus a) = Some a"
| "status_write _ = None"

definition status_writes :: "api_call list \<Rightarrow> SimpleApp list" where
  "status_writes cs = List.map_filter status_write cs"

text \<open>The owner references a create call submits; \<open>None\<close> for any other call.\<close>

fun created_owners :: "api_call \<Rightarrow> OwnerReference list option" where
  "created_owners (CreateDeployment d) = Some (OwnerReferences (dep_meta d))"
| "created_owners (CreateService s) = Some (OwnerReferences (svc_meta s))"
| "created_owners (CreateIngress i) = Some (OwnerReferences (ing_meta i))"
| "created_owners _ = None"

text \<open>The calls issued between an earlier state and a later one.\<close>

definition calls_since :: "cluster \<Rightarrow> cluster \<Rightarrow> api_call list" where
  "calls_since w w' = drop (length (trace w)) (trace w')"

text \<open>
  The API server files every object under the namespace and name of its own metadata.
\<close>

definition wf_cluster :: "cluster \<Rightarrow> bool" where
  "wf_cluster w \<longleftrightarrow>
     (\<forall>k a. simpleapps w k = Some a \<longrightarrow> key_of (app_meta a) = k) \<and>
     (\<forall>k d. deployments w k = Some d \<longrightarrow> key_of (dep_meta d) = k) \<and>
     (\<forall>k s. services w k = Some s \<longrightarrow> key_of (svc_meta s) = k) \<and>
     (\<forall>k i. ingresses w k = Some i \<longrightarrow> key_of (ing_meta i) = k)"

definition ingress_key :: "SimpleApp \<Rightarrow> ObjectKey" where
  "ingress_key cr = (Namespace (app_meta cr), Name (app_meta cr) @ ''-ingress'')"

text \<open>A call is owned when, if it is a create, it submits exactly the controller
  reference to the declaration.\<close>

definition owned_by :: "Scheme \<Rightarrow> SimpleApp \<Rightarrow> api_call \<Rightarrow> bool" where
  "owned_by scheme cr c =
     (case created_owners c of
        None \<Rightarrow> True
      | Some refs \<Rightarrow>
          (case scheme of None \<Rightarrow> False | Some gv \<Rightarrow> refs = [controllerRef gv cr]))"

section \<open>Concrete inputs\<close>

definition scheme0 :: Scheme where
  "scheme0 = Some ''apps.myapp.io/v1''"

definition app_a :: SimpleApp where
  "app_a =
     \<lparr>app_meta = emptyMeta\<lparr>Name := ''a'', Namespace := ''default'', UID := ''uid-a''\<rparr>,
      Spec = \<lparr>Image = ''nginx:latest'', Replicas = 2, ContainerPort = 80, ServicePort = 8080\<rparr>,
      Status = \<lparr>ReadyReplicas = 0, ServiceStatus = []\<rparr>\<rparr>"

definition empty_cluster :: cluster where
  "empty_cluster =
     \<lparr>simpleapps = Map.empty, deployments = Map.empty, services = Map.empty,
      ingresses = Map.empty, environ = [], faults = [], trace = []\<rparr>"

definition cluster_a :: cluster where
  "cluster_a = empty_cluster\<lparr>simpleapps := [(''default'', ''a'') \<mapsto> app_a]\<rparr>"

definition cluster_a_nginx :: cluster where
  "cluster_a_nginx = cluster_a\<lparr>environ := [(''INGRESS_CLASS_NAME'', ''nginx'')]\<rparr>"

text \<open>A workload whose replica count and labels were edited by hand.\<close>

definition dep_drifted :: Deployment where
  "dep_drifted =
     \<lparr>dep_meta = emptyMeta\<lparr>Name := ''a'', Namespace := ''default'',
          Labels := [(''app'', ''tampered'')]\<rparr>,
      dep_Replicas = Some 5,
      dep_Selector = Some [(''app'', ''a'')],
      dep_TemplateLabels = [(''app'', ''tampered'')],
      dep_Containers =
        [\<lparr>c_Name = ''app'', c_Image = ''nginx:latest'', c_ImagePullPolicy = ''Always'',
          c_Ports = [80]\<rparr>],
      dep_ReadyReplicas = 5\<rparr>"

definition cluster_drifted :: cluster where
  "cluster_drifted = cluster_a\<lparr>deployments := [(''default'', ''a'') \<mapsto> dep_drifted]\<rparr>"

text \<open>An endpoint with a drifted port, and routes with no class and with another class.\<close>

definition svc_drifted :: Service where
  "svc_drifted =
     \<lparr>svc_meta = emptyMeta\<lparr>Name := ''a'', Namespace := ''default''\<rparr>,
      svc_Selector = [(''app'', ''a'')],
      svc_Ports =
        [\<lparr>sp_Name = ''http'', sp_Protocol = ''TCP'', sp_Port = 9090,
          sp_TargetPort = \<lparr>ios_Type = IntType, ios_IntVal = 80, ios_StrVal = []\<rparr>,
          sp_NodePort = 0\<rparr>],
      svc_Type = ''ClusterIP''\<rparr>"

definition cluster_svc_drifted :: cluster where
  "cluster_svc_drifted = cluster_a\<lparr>services := [(''default'', ''a'') \<mapsto> svc_drifted]\<rparr>"

definition ing_noclass :: Ingress where
  "ing_noclass =
     \<lparr>ing_meta = emptyMeta\<lparr>Name := ''a-ingress'', Namespace := ''default'',
          Annotations := [(''kubernetes.io/ingress.class'', ''traefik'')]\<rparr>,
      ing_IngressClassName = None,
      ing_Rules = [\<lparr>rule_Host = ''a.example.org'', rule_Paths = []\<rparr>]\<rparr>"

definition cluster_noclass :: cluster where
  "cluster_noclass =
     cluster_a_nginx\<lparr>ingresses := [(''default'', ''a-ingress'') \<mapsto> ing_noclass]\<rparr>"

definition cluster_traefik_route :: cluster where
  "cluster_traefik_route =
     cluster_a_nginx\<lparr>ingresses :=
       [(''default'', ''a-ingress'') \<mapsto> ing_noclass\<lparr>ing_IngressClassName := Some ''traefik''\<rparr>]\<rparr>"

section \<open>Basic facts\<close>

lemma issue_eq:
  "issue c w =
     (case faults w of [] \<Rightarrow> None | f # _ \<Rightarrow> f,
      w\<lparr>faults := tl (faults w), trace := trace w @ [c]\<rparr>)"
  by (cases "faults w") (simp_all add: issue_def)

lemmas prim_defs =
  Get_Deployment_def Create_Deployment_def Update_Deployment_def
  Get_Service_def Create_Service_def Update_Service_def
  Get_Ingress_def Create_Ingress_def Update_Ingress_def
  issue_eq IgnoreNotFound_def key_of_def

lemmas all_splits = sum.splits option.splits list.splits prod.splits if_splits

lemmas example_defs =
  scheme0_def app_a_def empty_cluster_def cluster_a_def cluster_a_nginx_def emptyMeta_def
  dep_drifted_def cluster_drifted_def svc_drifted_def cluster_svc_drifted_def
  ing_noclass_def cluster_noclass_def cluster_traefik_route_def

lemma ucast_scast_int32 [simp]: "ucast (scast (x :: 32 word) :: 64 word) = x"
  by (rule bit_word_eqI) (auto simp: bit_simps)

lemma SetControllerReference_key:
  "SetControllerReference cr m scheme = Inr m' \<Longrightarrow>
     Name m' = Name m \<and> Namespace m' = Namespace m"
  by (auto simp: SetControllerReference_def split: if_splits option.splits)

lemma SetControllerReference_fresh:
  "SetControllerReference cr m scheme = Inr m' \<Longrightarrow> OwnerReferences m = [] \<Longrightarrow>
     \<exists>gv. scheme = Some gv \<and> OwnerReferences m' = [controllerRef gv cr]"
  by (auto simp: SetControllerReference_def split: if_splits option.splits)

lemma wf_depD:
  "wf_cluster w \<Longrightarrow> deployments w (ns, n) = Some d \<Longrightarrow>
     Namespace (dep_meta d) = ns \<and> Name (dep_meta d) = n"
  by (auto simp: wf_cluster_def key_of_def)

lemma wf_svcD:
  "wf_cluster w \<Longrightarrow> services w (ns, n) = Some s \<Longrightarrow>
     Namespace (svc_meta s) = ns \<and> Name (svc_meta s) = n"
  by (auto simp: wf_cluster_def key_of_def)

lemma wf_ingD:
  "wf_cluster w \<Longrightarrow> ingresses w (ns, n) = Some i \<Longrightarrow>
     Namespace (ing_meta i) = ns \<and> Name (ing_meta i) = n"
  by (auto simp: wf_cluster_def key_of_def)

lemma wf_cluster_a: "wf_cluster cluster_a"
  by (simp add: wf_cluster_def example_defs key_of_def)

lemma wf_cluster_a_nginx: "wf_cluster cluster_a_nginx"
  by (simp add: wf_cluster_def example_defs key_of_def)

section \<open>Idempotence of the ensure operations\<close>

text \<open>What a successful \<open>ensureDeployment\<close> leaves in the store.\<close>

lemma ensureDeployment_post:
  assumes "ensureDeployment scheme cr w = (Inr d, w1)" and "wf_cluster w"
  shows "deployments w1 (key_of (app_meta cr)) = Some d \<and>
         key_of (dep_meta d) = key_of (app_meta cr) \<and>
         dep_Replicas d = Some (Replicas (Spec cr)) \<and>
         (\<exists>c cs. dep_Containers d = c # cs \<and> c_Image c = Image (Spec cr))"
  using assms unfolding ensureDeployment_def
  by (auto simp: Let_def prim_defs desiredDeployment_def emptyMeta_def
           dest!: SetControllerReference_key dest: wf_depD split: all_splits)

text \<open>On a store that already agrees, it writes nothing, whatever the calls answer.\<close>

lemma ensureDeployment_settled:
  assumes "deployments w (key_of (app_meta cr)) = Some d"
    and "key_of (dep_meta d) = key_of (app_meta cr)"
    and "dep_Replicas d = Some (Replicas (Spec cr))"
    and "dep_Containers d = c # cs" and "c_Image c = Image (Spec cr)"
  shows "mutating_calls (snd (ensureDeployment scheme cr w)) = mutating_calls w"
  using assms unfolding ensureDeployment_def
  by (auto simp: Let_def prim_defs desiredDeployment_def emptyMeta_def mutating_calls_def
           dest!: SetControllerReference_key split: all_splits)

lemma ensureDeployment_idem:
  assumes "ensureDeployment scheme cr w = (Inr d, w1)" and "wf_cluster w"
  shows "mutating_calls (snd (ensureDeployment scheme cr (w1\<lparr>faults := fs\<rparr>))) =
         mutating_calls w1"
proof -
  from ensureDeployment_post [OF assms] obtain c cs where
    post: "deployments w1 (key_of (app_meta cr)) = Some d"
      "key_of (dep_meta d) = key_of (app_meta cr)"
      "dep_Replicas d = Some (Replicas (Spec cr))"
      "dep_Containers d = c # cs" "c_Image c = Image (Spec cr)"
    by blast
  have "mutating_calls (snd (ensureDeployment scheme cr (w1\<lparr>faults := fs\<rparr>))) =
        mutating_calls (w1\<lparr>faults := fs\<rparr>)"
    by (rule ensureDeployment_settled [where d = d and c = c and cs = cs])
       (use post in simp_all)
  then show ?thesis by (simp add: mutating_calls_def)
qed

lemma ensureService_post:
  assumes "ensureService scheme cr w = (Inr s, w1)" and "wf_cluster w"
  shows "services w1 (key_of (app_meta cr)) = Some s \<and>
         key_of (svc_meta s) = key_of (app_meta cr) \<and>
         (\<exists>p ps. svc_Ports s = p # ps \<and> sp_Port p = ServicePort (Spec cr) \<and>
            sp_TargetPort p = FromInt (int_of_int32 (ContainerPort (Spec cr))))"
  using assms unfolding ensureService_def
  by (auto simp: Let_def prim_defs desiredService_def emptyMeta_def
           dest!: SetControllerReference_key dest: wf_svcD split: all_splits)

lemma ensureService_settled:
  assumes "services w (key_of (app_meta cr)) = Some s"
    and "key_of (svc_meta s) = key_of (app_meta cr)"
    and "svc_Ports s = p # ps" and "sp_Port p = ServicePort (Spec cr)"
    and "sp_TargetPort p = FromInt (int_of_int32 (ContainerPort (Spec cr)))"
  shows "mutating_calls (snd (ensureService scheme cr w)) = mutating_calls w"
  using assms unfolding ensureService_def
  by (auto simp: Let_def prim_defs desiredService_def emptyMeta_def mutating_calls_def
           dest!: SetControllerReference_key split: all_splits)

lemma ensureService_idem:
  assumes "ensureService scheme cr w = (Inr s, w1)" and "wf_cluster w"
  shows "mutating_calls (snd (ensureService scheme cr (w1\<lparr>faults := fs\<rparr>))) =
         mutating_calls w1"
proof -
  from ensureService_post [OF assms] obtain p ps where
    post: "services w1 (key_of (app_meta cr)) = Some s"
      "key_of (svc_meta s) = key_of (app_meta cr)"
      "svc_Ports s = p # ps" "sp_Port p = ServicePort (Spec cr)"
      "sp_TargetPort p = FromInt (int_of_int32 (ContainerPort (Spec cr)))"
    by blast
  have "mutating_calls (snd (ensureService scheme cr (w1\<lparr>faults := fs\<rparr>))) =
        mutating_calls (w1\<lparr>faults := fs\<rparr>)"
    by (rule ensureService_settled [where s = s and p = p and ps = ps])
       (use post in simp_all)
  then show ?thesis by (simp add: mutating_calls_def)
qed

lemma ensureIngress_post:
  assumes "ensureIngress scheme cr w = (Inr r, w1)" and "wf_cluster w"
  shows "environ w1 = environ w \<and>
         (case r of
            None \<Rightarrow> os_Getenv ''INGRESS_CLASS_NAME'' w = []
          | Some i \<Rightarrow>
              os_Getenv ''INGRESS_CLASS_NAME'' w \<noteq> [] \<and>
              ingresses w1 (ingress_key cr) = Some i \<and>
              (ing_IngressClassName i = None \<or>
               ing_IngressClassName i = Some (os_Getenv ''INGRESS_CLASS_NAME'' w)))"
  using assms unfolding ensureIngress_def
  by (auto simp: Let_def prim_defs desiredIngress_def emptyMeta_def os_Getenv_def
                 ingress_key_def
           dest!: SetControllerReference_key dest: wf_ingD split: all_splits)

lemma ensureIngress_settled_off:
  assumes "os_Getenv ''INGRESS_CLASS_NAME'' w = []"
  shows "mutating_calls (snd (ensureIngress scheme cr w)) = mutating_calls w"
  using assms by (simp add: ensureIngress_def)

lemma ensureIngress_settled_on:
  assumes "ingresses w (ingress_key cr) = Some i"
    and "ing_IngressClassName i = None \<or>
         ing_IngressClassName i = Some (os_Getenv ''INGRESS_CLASS_NAME'' w)"
  shows "mutating_calls (snd (ensureIngress scheme cr w)) = mutating_calls w"
  using assms unfolding ensureIngress_def
  by (auto simp: Let_def prim_defs desiredIngress_def emptyMeta_def mutating_calls_def
                 ingress_key_def
           dest!: SetControllerReference_key split: all_splits)

lemma ensureIngress_idem:
  assumes "ensureIngress scheme cr w = (Inr r, w1)" and "wf_cluster w"
  shows "mutating_calls (snd (ensureIngress scheme cr (w1\<lparr>faults := fs\<rparr>))) =
         mutating_calls w1"
proof -
  note post = ensureIngress_post [OF assms]
  have env: "os_Getenv ''INGRESS_CLASS_NAME'' (w1\<lparr>faults := fs\<rparr>) =
             os_Getenv ''INGRESS_CLASS_NAME'' w"
    using post by (simp add: os_Getenv_def)
  have "mutating_calls (snd (ensureIngress scheme cr (w1\<lparr>faults := fs\<rparr>))) =
        mutating_calls (w1\<lparr>faults := fs\<rparr>)"
  proof (cases r)
    case None
    with post env show ?thesis by (intro ensureIngress_settled_off) simp
  next
    case (Some i)
    with post env show ?thesis by (intro ensureIngress_settled_on [where i = i]) simp_all
  qed
  then show ?thesis by (simp add: mutating_calls_def)
qed

text \<open>
  Claim C2. From a well-formed cluster state, whenever a first run of
  \<open>ensureDeployment\<close>, \<open>ensureService\<close> or \<open>ensureIngress\<close> succeeds, a second run of
  the same operation on the state the first one produced, for the same declaration and
  the same environment, issues no create and no update: the mutating calls in the log are
  those that were there before it. This holds whatever the API answers to the calls of
  the second run (\<open>fs\<close>).
\<close>

theorem ensure_twice_no_mutation:
  assumes "wf_cluster w"
  shows "(\<forall>d w1. ensureDeployment scheme cr w = (Inr d, w1) \<longrightarrow>
            mutating_calls (snd (ensureDeployment scheme cr (w1\<lparr>faults := fs\<rparr>))) =
            mutating_calls w1) \<and>
         (\<forall>s w1. ensureService scheme cr w = (Inr s, w1) \<longrightarrow>
            mutating_calls (snd (ensureService scheme cr (w1\<lparr>faults := fs\<rparr>))) =
            mutating_calls w1) \<and>
         (\<forall>i w1. ensureIngress scheme cr w = (Inr i, w1) \<longrightarrow>
            mutating_calls (snd (ensureIngress scheme cr (w1\<lparr>faults := fs\<rparr>))) =
            mutating_calls w1)"
  using assms ensureDeployment_idem ensureService_idem ensureIngress_idem by blast

theorem ensure_twice_no_mutation_witness:
  "mutating_calls (snd (ensureDeployment scheme0 app_a
       ((snd (ensureDeployment scheme0 app_a cluster_a))\<lparr>faults := []\<rparr>))) =
   mutating_calls (snd (ensureDeployment scheme0 app_a cluster_a)) \<and>
   mutating_calls (snd (ensureService scheme0 app_a
       ((snd (ensureService scheme0 app_a cluster_a))\<lparr>faults := []\<rparr>))) =
   mutating_calls (snd (ensureService scheme0 app_a cluster_a)) \<and>
   mutating_calls (snd (ensureIngress scheme0 app_a
       ((snd (ensureIngress scheme0 app_a cluster_a_nginx))\<lparr>faults := []\<rparr>))) =
   mutating_calls (snd (ensureIngress scheme0 app_a cluster_a_nginx))"
proof -
  obtain d w1 where d: "ensureDeployment scheme0 app_a cluster_a = (Inr d, w1)"
    by (simp add: ensureDeployment_def SetControllerReference_def desiredDeployment_def
          example_defs prim_defs Let_def)
  obtain s w2 where s: "ensureService scheme0 app_a cluster_a = (Inr s, w2)"
    by (simp add: ensureService_def SetControllerReference_def desiredService_def
          example_defs prim_defs Let_def)
  obtain i w3 where i: "ensureIngress scheme0 app_a cluster_a_nginx = (Inr i, w3)"
    by (simp add: ensureIngress_def SetControllerReference_def desiredIngress_def
          example_defs prim_defs Let_def os_Getenv_def)
  from ensure_twice_no_mutation [OF wf_cluster_a, of scheme0 app_a "[]"] d s
    ensure_twice_no_mutation [OF wf_cluster_a_nginx, of scheme0 app_a "[]"] i
  show ?thesis by simp
qed

section \<open>The narrow diff of the workload\<close>

text \<open>
  Claim C3. Let a workload exist under the declaration's key, with a replica count and at
  least one container, and let no call fail. \<open>ensureDeployment\<close> decides on the replica
  count and the image of the first container alone. If either differs from the
  declaration, it issues one read and one update, and the object it writes and returns is
  the existing one with exactly these two fields replaced; labels, selector and every
  other field keep the values found. If both agree, it issues the read only, leaves the
  store as it is and returns the existing workload.
\<close>

theorem ensureDeployment_narrow_diff:
  assumes "deployments w (key_of (app_meta cr)) = Some e"
    and "key_of (dep_meta e) = key_of (app_meta cr)"
    and "dep_Replicas e = Some r" and "dep_Containers e = c # cs"
    and "faults w = []" and "scheme = Some gv"
  shows "ensureDeployment scheme cr w =
     (if r \<noteq> Replicas (Spec cr) \<or> c_Image c \<noteq> Image (Spec cr)
      then
        (Inr (e\<lparr>dep_Replicas := Some (Replicas (Spec cr)),
                dep_Containers := c\<lparr>c_Image := Image (Spec cr)\<rparr> # cs\<rparr>),
         w\<lparr>deployments := (deployments w)(key_of (app_meta cr) \<mapsto>
               e\<lparr>dep_Replicas := Some (Replicas (Spec cr)),
                 dep_Containers := c\<lparr>c_Image := Image (Spec cr)\<rparr> # cs\<rparr>),
           trace := trace w @
             [GetDeployment (key_of (app_meta cr)),
              UpdateDeployment
                (e\<lparr>dep_Replicas := Some (Replicas (Spec cr)),
                   dep_Containers := c\<lparr>c_Image := Image (Spec cr)\<rparr> # cs\<rparr>)]\<rparr>)
      else (Inr e, w\<lparr>trace := trace w @ [GetDeployment (key_of (app_meta cr))]\<rparr>))"
  using assms unfolding ensureDeployment_def
  by (simp add: Let_def prim_defs issue_def SetControllerReference_def desiredDeployment_def emptyMeta_def)

theorem ensureDeployment_narrow_diff_witness:
  "fst (ensureDeployment scheme0 app_a cluster_drifted) =
     Inr (dep_drifted\<lparr>dep_Replicas := Some 2\<rparr>) \<and>
   deployments (snd (ensureDeployment scheme0 app_a cluster_drifted)) (''default'', ''a'') =
     Some (dep_drifted\<lparr>dep_Replicas := Some 2\<rparr>) \<and>
   fst (ensureDeployment scheme0 app_a
         (cluster_drifted\<lparr>deployments := [(''default'', ''a'') \<mapsto> dep_drifted\<lparr>dep_Replicas := Some 2\<rparr>]\<rparr>)) =
     Inr (dep_drifted\<lparr>dep_Replicas := Some 2\<rparr>) \<and>
   trace (snd (ensureDeployment scheme0 app_a
         (cluster_drifted\<lparr>deployments := [(''default'', ''a'') \<mapsto> dep_drifted\<lparr>dep_Replicas := Some 2\<rparr>]\<rparr>))) =
     [GetDeployment (''default'', ''a'')]"
  using ensureDeployment_narrow_diff [of cluster_drifted app_a dep_drifted 5
      "\<lparr>c_Name = ''app'', c_Image = ''nginx:latest'', c_ImagePullPolicy = ''Always'', c_Ports = [80]\<rparr>"
      "[]" scheme0 "''apps.myapp.io/v1''"]
   ensureDeployment_narrow_diff [of "cluster_drifted\<lparr>deployments := [(''default'', ''a'') \<mapsto> dep_drifted\<lparr>dep_Replicas := Some 2\<rparr>]\<rparr>" app_a "dep_drifted\<lparr>dep_Replicas := Some 2\<rparr>" 2
      "\<lparr>c_Name = ''app'', c_Image = ''nginx:latest'', c_ImagePullPolicy = ''Always'', c_Ports = [80]\<rparr>"
      "[]" scheme0 "''apps.myapp.io/v1''"]
  by (simp add: example_defs key_of_def)

section \<open>The port mapping of the endpoint\<close>



section \<open>The class of the route\<close>

text \<open>What \<open>ensureIngress\<close> does with a route it finds.\<close>

lemma ensureIngress_existing:
  assumes "ingresses w (ingress_key cr) = Some e"
    and "key_of (ing_meta e) = ingress_key cr"
    and "os_Getenv ''INGRESS_CLASS_NAME'' w = cls" and "cls \<noteq> []"
    and "faults w = []" and "scheme = Some gv"
  shows "ensureIngress scheme cr w =
     (if (\<exists>old. ing_IngressClassName e = Some old \<and> old \<noteq> cls)
      then
        (Inr (Some (e\<lparr>ing_IngressClassName := Some cls\<rparr>)),
         w\<lparr>ingresses := (ingresses w)(ingress_key cr \<mapsto> e\<lparr>ing_IngressClassName := Some cls\<rparr>),
           trace := trace w @
             [GetIngress (ingress_key cr),
              UpdateIngress (e\<lparr>ing_IngressClassName := Some cls\<rparr>)]\<rparr>)
      else (Inr (Some e), w\<lparr>trace := trace w @ [GetIngress (ingress_key cr)]\<rparr>))"
  using assms unfolding ensureIngress_def
  by (auto simp add: Let_def prim_defs issue_def SetControllerReference_def desiredIngress_def
       emptyMeta_def ingress_key_def)

text \<open>
  Claim C6, as the code has it. Let a route exist under the key of the declaration's
  route, a route class be configured, and no call fail. \<open>ensureIngress\<close> looks at the
  class reference alone: if the live route has a class set and it is not the configured
  one, one update replaces just that field; otherwise (the class agrees, or the live route
  has no class set) only the read is issued and the route is returned as found. Host and
  path rules are never written after creation.
\<close>

theorem ensureIngress_class_diff:
  assumes "ingresses w (ingress_key cr) = Some e"
    and "key_of (ing_meta e) = ingress_key cr"
    and "os_Getenv ''INGRESS_CLASS_NAME'' w = cls" and "cls \<noteq> []"
    and "faults w = []" and "scheme = Some gv"
  shows "ensureIngress scheme cr w =
     (if (\<exists>old. ing_IngressClassName e = Some old \<and> old \<noteq> cls)
      then
        (Inr (Some (e\<lparr>ing_IngressClassName := Some cls\<rparr>)),
         w\<lparr>ingresses := (ingresses w)(ingress_key cr \<mapsto> e\<lparr>ing_IngressClassName := Some cls\<rparr>),
           trace := trace w @
             [GetIngress (ingress_key cr),
              UpdateIngress (e\<lparr>ing_IngressClassName := Some cls\<rparr>)]\<rparr>)
      else (Inr (Some e), w\<lparr>trace := trace w @ [GetIngress (ingress_key cr)]\<rparr>))"
  using assms by (rule ensureIngress_existing)

theorem ensureIngress_class_diff_witness:
  "ensureIngress scheme0 app_a cluster_traefik_route =
     (Inr (Some (ing_noclass\<lparr>ing_IngressClassName := Some ''nginx''\<rparr>)),
      cluster_traefik_route
        \<lparr>ingresses := [(''default'', ''a-ingress'') \<mapsto> ing_noclass\<lparr>ing_IngressClassName := Some ''nginx''\<rparr>],
         trace := [GetIngress (''default'', ''a-ingress''),
                   UpdateIngress (ing_noclass\<lparr>ing_IngressClassName := Some ''nginx''\<rparr>)]\<rparr>)"
  using ensureIngress_class_diff [of cluster_traefik_route app_a
      "ing_noclass\<lparr>ing_IngressClassName := Some ''traefik''\<rparr>" "''nginx''" scheme0 "''apps.myapp.io/v1''"]
  by (simp add: example_defs key_of_def ingress_key_def os_Getenv_def)

text \<open>
  The claim as stated fails for a live route with no class set: its class differs from
  the configured one, and \<open>ensureIngress\<close> issues the read only.
\<close>

theorem ensureIngress_unset_class_counterexample:
  "os_Getenv ''INGRESS_CLASS_NAME'' cluster_noclass = ''nginx'' \<and>
   ingresses cluster_noclass (ingress_key app_a) = Some ing_noclass \<and>
   ing_IngressClassName ing_noclass \<noteq> Some ''nginx'' \<and>
   ensureIngress scheme0 app_a cluster_noclass =
     (Inr (Some ing_noclass),
      cluster_noclass\<lparr>trace := [GetIngress (''default'', ''a-ingress'')]\<rparr>)"
  by (simp add: ensureIngress_def Let_def prim_defs issue_def SetControllerReference_def
       desiredIngress_def example_defs ingress_key_def os_Getenv_def)

section \<open>A missing declaration\<close>

text \<open>
  Claim C8. When the declaration is not in the store and the read is answered,
  \<open>Reconcile\<close> returns no error after the single read, with every store untouched. When
  the read fails for another reason, that error is returned, again after the single read.
\<close>

theorem Reconcile_missing_declaration:
  "(simpleapps w req = None \<and> (faults w = [] \<or> (\<exists>fs. faults w = None # fs)) \<longrightarrow>
      Reconcile scheme req w =
        (None, w\<lparr>faults := tl (faults w), trace := trace w @ [GetSimpleApp req]\<rparr>)) \<and>
   (\<forall>msg fs. faults w = Some msg # fs \<longrightarrow>
      Reconcile scheme req w =
        (Some (ApiFailure msg), w\<lparr>faults := fs, trace := trace w @ [GetSimpleApp req]\<rparr>))"
  by (auto simp: Reconcile_def Get_SimpleApp_def issue_eq IgnoreNotFound_def)

theorem Reconcile_missing_declaration_witness:
  "Reconcile scheme0 (''default'', ''gone'') cluster_a =
     (None, cluster_a\<lparr>trace := [GetSimpleApp (''default'', ''gone'')]\<rparr>) \<and>
   Reconcile scheme0 (''default'', ''a'') (cluster_a\<lparr>faults := [Some ''timeout'']\<rparr>) =
     (Some (ApiFailure ''timeout''),
      cluster_a\<lparr>trace := [GetSimpleApp (''default'', ''a'')]\<rparr>)"
  using Reconcile_missing_declaration [of cluster_a "(''default'', ''gone'')" scheme0]
    Reconcile_missing_declaration [of "cluster_a\<lparr>faults := [Some ''timeout'']\<rparr>" "(''default'', ''a'')" scheme0]
  by (simp add: example_defs)

section \<open>What each step of a pass leaves alone\<close>

lemma Get_SimpleApp_frame:
  assumes "Get_SimpleApp k w = (r, w1)"
  shows "simpleapps w1 = simpleapps w \<and> deployments w1 = deployments w \<and>
         services w1 = services w \<and> ingresses w1 = ingresses w \<and>
         environ w1 = environ w \<and> trace w1 = trace w @ [GetSimpleApp k] \<and>
         (\<forall>a. r = Inr a \<longrightarrow> simpleapps w k = Some a)"
  using assms by (auto simp: Get_SimpleApp_def issue_eq split: all_splits)

lemma Status_Update_frame:
  assumes "Status_Update a w = (r, w1)"
  shows "deployments w1 = deployments w \<and>
         services w1 = services w \<and> ingresses w1 = ingresses w \<and>
         environ w1 = environ w \<and> trace w1 = trace w @ [UpdateStatus a]"
  using assms by (auto simp: Status_Update_def issue_eq split: all_splits)

lemma ensureDeployment_frame:
  assumes "ensureDeployment scheme cr w = (r, w2)"
  shows "simpleapps w2 = simpleapps w \<and> services w2 = services w \<and>
         ingresses w2 = ingresses w \<and> environ w2 = environ w \<and>
         (\<exists>cs. trace w2 = trace w @ cs \<and>
            (\<forall>c \<in> set cs. \<not> is_ingress_call c \<and> status_write c = None \<and>
                owned_by scheme cr c))"
  using assms unfolding ensureDeployment_def
  by (auto simp: Let_def prim_defs desiredDeployment_def emptyMeta_def owned_by_def
           dest!: SetControllerReference_fresh split: all_splits)

lemma ensureService_frame:
  assumes "ensureService scheme cr w = (r, w2)"
  shows "simpleapps w2 = simpleapps w \<and> deployments w2 = deployments w \<and>
         ingresses w2 = ingresses w \<and> environ w2 = environ w \<and>
         (\<exists>cs. trace w2 = trace w @ cs \<and>
            (\<forall>c \<in> set cs. \<not> is_ingress_call c \<and> status_write c = None \<and>
                owned_by scheme cr c))"
  using assms unfolding ensureService_def
  by (auto simp: Let_def prim_defs desiredService_def emptyMeta_def owned_by_def
           dest!: SetControllerReference_fresh split: all_splits)

lemma ensureIngress_frame:
  assumes "ensureIngress scheme cr w = (r, w2)"
  shows "simpleapps w2 = simpleapps w \<and> deployments w2 = deployments w \<and>
         services w2 = services w \<and> environ w2 = environ w \<and>
         (\<exists>cs. trace w2 = trace w @ cs \<and>
            (\<forall>c \<in> set cs. status_write c = None \<and> owned_by scheme cr c))"
  using assms unfolding ensureIngress_def
  by (auto simp: Let_def prim_defs desiredIngress_def emptyMeta_def owned_by_def
           dest!: SetControllerReference_fresh split: all_splits)

lemma Reconcile_cases [consumes 1, case_names fetch workload endpoint route status]:
  assumes "Reconcile scheme req w = (res, w')"
  obtains
    e where "Get_SimpleApp req w = (Inl e, w')" "res = IgnoreNotFound e"
  | cr w1 e where "Get_SimpleApp req w = (Inr cr, w1)"
      "ensureDeployment scheme cr w1 = (Inl e, w')" "res = Some e"
  | cr w1 d w2 e where "Get_SimpleApp req w = (Inr cr, w1)"
      "ensureDeployment scheme cr w1 = (Inr d, w2)"
      "ensureService scheme cr w2 = (Inl e, w')" "res = Some e"
  | cr w1 d w2 s w3 e where "Get_SimpleApp req w = (Inr cr, w1)"
      "ensureDeployment scheme cr w1 = (Inr d, w2)"
      "ensureService scheme cr w2 = (Inr s, w3)"
      "ensureIngress scheme cr w3 = (Inl e, w')" "res = Some e"
  | cr w1 d w2 s w3 i w4 where "Get_SimpleApp req w = (Inr cr, w1)"
      "ensureDeployment scheme cr w1 = (Inr d, w2)"
      "ensureService scheme cr w2 = (Inr s, w3)"
      "ensureIngress scheme cr w3 = (Inr i, w4)"
      "(res, w') =
         (if ReadyReplicas (Status cr) \<noteq> dep_ReadyReplicas d
          then Status_Update (cr\<lparr>Status := (Status cr)\<lparr>ReadyReplicas := dep_ReadyReplicas d\<rparr>\<rparr>) w4
          else (None, w4))"
  using assms unfolding Reconcile_def
  by (auto simp: Let_def split: sum.splits prod.splits if_splits)

lemma calls_since_append:
  "trace w' = trace w @ cs \<Longrightarrow> calls_since w w' = cs"
  by (simp add: calls_since_def)

lemma status_writes_append [simp]:
  "status_writes (xs @ ys) = status_writes xs @ status_writes ys"
  by (simp add: status_writes_def map_filter_def)

lemma status_writes_none:
  "\<forall>c \<in> set cs. status_write c = None \<Longrightarrow> status_writes cs = []"
  by (induction cs) (simp_all add: status_writes_def map_filter_def)

lemma Status_Update_stored:
  assumes "Status_Update a w = (r, w1)" and "simpleapps w (key_of (app_meta a)) = Some a0"
    and "ServiceStatus (Status a) = ServiceStatus (Status a0)"
  shows "(\<forall>k. map_option (\<lambda>x. ServiceStatus (Status x)) (simpleapps w1 k) =
              map_option (\<lambda>x. ServiceStatus (Status x)) (simpleapps w k)) \<and>
         (r = None \<longrightarrow>
            map_option (\<lambda>x. ReadyReplicas (Status x)) (simpleapps w1 (key_of (app_meta a))) =
            Some (ReadyReplicas (Status a)))"
  using assms by (auto simp: Status_Update_def issue_eq split: all_splits)

section \<open>No route class configured\<close>

lemma Reconcile_no_class_frame:
  assumes env: "os_Getenv ''INGRESS_CLASS_NAME'' w = []"
    and run: "Reconcile scheme req w = (res, w')"
  shows "ingresses w' = ingresses w \<and>
         (\<exists>cs. trace w' = trace w @ cs \<and> (\<forall>c \<in> set cs. \<not> is_ingress_call c))"
  using run
proof (cases rule: Reconcile_cases)
  case (fetch e)
  then show ?thesis using Get_SimpleApp_frame by fastforce
next
  case (workload cr w1 e)
  from Get_SimpleApp_frame [OF workload(1)] ensureDeployment_frame [OF workload(2)]
  show ?thesis by auto
next
  case (endpoint cr w1 d w2 e)
  from Get_SimpleApp_frame [OF endpoint(1)] ensureDeployment_frame [OF endpoint(2)]
    ensureService_frame [OF endpoint(3)]
  show ?thesis by auto
next
  case (route cr w1 d w2 s w3 e)
  from Get_SimpleApp_frame [OF route(1)] ensureDeployment_frame [OF route(2)]
    ensureService_frame [OF route(3)]
  have "os_Getenv ''INGRESS_CLASS_NAME'' w3 = []" using env by (simp add: os_Getenv_def)
  with route(4) show ?thesis by (simp add: ensureIngress_def)
next
  case (status cr w1 d w2 s w3 i w4)
  note f = Get_SimpleApp_frame [OF status(1)] ensureDeployment_frame [OF status(2)]
    ensureService_frame [OF status(3)]
  then have "os_Getenv ''INGRESS_CLASS_NAME'' w3 = []" using env by (simp add: os_Getenv_def)
  with status(4) have w4: "w4 = w3" by (simp add: ensureIngress_def)
  show ?thesis
  proof (cases "ReadyReplicas (Status cr) \<noteq> dep_ReadyReplicas d")
    case True
    with status(5) have "Status_Update (cr\<lparr>Status := (Status cr)\<lparr>ReadyReplicas := dep_ReadyReplicas d\<rparr>\<rparr>) w4 = (res, w')"
      by simp
    from Status_Update_frame [OF this] f w4 show ?thesis by auto
  next
    case False
    with status(5) have "w' = w4" by simp
    with f w4 show ?thesis by auto
  qed
qed

text \<open>
  Claim C5. When \<open>INGRESS_CLASS_NAME\<close> is unset or empty, \<open>ensureIngress\<close> returns no
  route and no error and leaves the whole state as it is: no call is issued and no store
  changes. A whole pass under this configuration, from any state and whatever the API
  answers, leaves the store of routes as it was and issues no call on a route; so a route
  created earlier stays, and a declaration without a route gets none.
\<close>

theorem ensureIngress_no_route_class:
  assumes "map_of (environ w) ''INGRESS_CLASS_NAME'' = None \<or>
           map_of (environ w) ''INGRESS_CLASS_NAME'' = Some []"
  shows "ensureIngress scheme cr w = (Inr None, w) \<and>
         ingresses (snd (Reconcile scheme req w)) = ingresses w \<and>
         (\<forall>c \<in> set (calls_since w (snd (Reconcile scheme req w))). \<not> is_ingress_call c)"
proof -
  from assms have env: "os_Getenv ''INGRESS_CLASS_NAME'' w = []"
    by (auto simp: os_Getenv_def)
  obtain res w' where run: "Reconcile scheme req w = (res, w')" by (cases "Reconcile scheme req w")
  from Reconcile_no_class_frame [OF env run] obtain cs where
    "ingresses w' = ingresses w" "trace w' = trace w @ cs" "\<forall>c \<in> set cs. \<not> is_ingress_call c"
    by blast
  then show ?thesis using env run by (simp add: ensureIngress_def calls_since_append)
qed

theorem ensureIngress_no_route_class_witness:
  "ensureIngress scheme0 app_a (cluster_noclass\<lparr>environ := []\<rparr>) =
     (Inr None, cluster_noclass\<lparr>environ := []\<rparr>) \<and>
   ingresses (snd (Reconcile scheme0 (''default'', ''a'') (cluster_noclass\<lparr>environ := []\<rparr>)))
     (''default'', ''a-ingress'') = Some ing_noclass \<and>
   ingresses (snd (Reconcile scheme0 (''default'', ''a'') cluster_a)) = Map.empty"
  using ensureIngress_no_route_class
      [of "cluster_noclass\<lparr>environ := []\<rparr>" scheme0 app_a "(''default'', ''a'')"]
    ensureIngress_no_route_class [of cluster_a scheme0 app_a "(''default'', ''a'')"]
  by (simp add: example_defs)

section \<open>Create, then converge\<close>

text \<open>
  Claim C1. Take a declaration stored under its own key with image \<open>nginx:latest\<close>,
  2 replicas, container port 80 and service port 8080, no workload and no endpoint under
  that key yet, no route class configured and no failing call. One pass succeeds; it adds
  exactly the workload \<open>D\<close> and the endpoint \<open>S\<close> under the declaration's key (named
  after the declaration, owned by it; 2 replicas, one container \<open>app\<close> running
  \<open>nginx:latest\<close> on port 80; selector \<open>app = name\<close>, port 8080 to target port 80,
  cluster-internal), leaves the routes as they were, and issues one create for each and no
  call on a route.
\<close>

theorem Reconcile_create_then_converge:
  assumes "simpleapps w req = Some cr" and "key_of (app_meta cr) = req"
    and "Image (Spec cr) = ''nginx:latest''" and "Replicas (Spec cr) = 2"
    and "ContainerPort (Spec cr) = 80" and "ServicePort (Spec cr) = 8080"
    and "os_Getenv ''INGRESS_CLASS_NAME'' w = []"
    and "deployments w req = None" and "services w req = None"
    and "faults w = []" and "scheme = Some gv"
    and "D = \<lparr>dep_meta = \<lparr>Name = Name (app_meta cr), Namespace = Namespace (app_meta cr),
                  UID = [], Labels = [], Annotations = [],
                  OwnerReferences = [controllerRef gv cr]\<rparr>,
               dep_Replicas = Some 2,
               dep_Selector = Some [(''app'', Name (app_meta cr))],
               dep_TemplateLabels = [(''app'', Name (app_meta cr))],
               dep_Containers =
                 [\<lparr>c_Name = ''app'', c_Image = ''nginx:latest'',
                   c_ImagePullPolicy = ''IfNotPresent'', c_Ports = [80]\<rparr>],
               dep_ReadyReplicas = 0\<rparr>"
    and "S = \<lparr>svc_meta = \<lparr>Name = Name (app_meta cr), Namespace = Namespace (app_meta cr),
                  UID = [], Labels = [], Annotations = [],
                  OwnerReferences = [controllerRef gv cr]\<rparr>,
               svc_Selector = [(''app'', Name (app_meta cr))],
               svc_Ports =
                 [\<lparr>sp_Name = [], sp_Protocol = [], sp_Port = 8080,
                   sp_TargetPort = \<lparr>ios_Type = IntType, ios_IntVal = 80, ios_StrVal = []\<rparr>,
                   sp_NodePort = 0\<rparr>],
               svc_Type = ''ClusterIP''\<rparr>"
  shows "fst (Reconcile scheme req w) = None \<and>
         deployments (snd (Reconcile scheme req w)) = (deployments w)(req \<mapsto> D) \<and>
         services (snd (Reconcile scheme req w)) = (services w)(req \<mapsto> S) \<and>
         ingresses (snd (Reconcile scheme req w)) = ingresses w \<and>
         trace (snd (Reconcile scheme req w)) =
           trace w @
           [GetSimpleApp req, GetDeployment req, CreateDeployment D,
            GetService req, CreateService S] @
           (if ReadyReplicas (Status cr) = 0 then []
            else [UpdateStatus (cr\<lparr>Status := (Status cr)\<lparr>ReadyReplicas := 0\<rparr>\<rparr>)])"
proof -
  have k: "Namespace (app_meta cr) = fst req" "Name (app_meta cr) = snd req"
    using assms(2) by (auto simp: key_of_def)
  have g: "Get_SimpleApp req w = (Inr cr, w\<lparr>trace := trace w @ [GetSimpleApp req]\<rparr>)"
    using assms by (simp add: Get_SimpleApp_def issue_def)
  have d: "ensureDeployment scheme cr (w\<lparr>trace := trace w @ [GetSimpleApp req]\<rparr>) =
      (Inr D, w\<lparr>deployments := (deployments w)(req \<mapsto> D),
          trace := trace w @ [GetSimpleApp req, GetDeployment req, CreateDeployment D]\<rparr>)"
    using assms k unfolding ensureDeployment_def
    by (simp add: Let_def prim_defs issue_def SetControllerReference_def desiredDeployment_def
          emptyMeta_def)
  have s: "ensureService scheme cr (w\<lparr>deployments := (deployments w)(req \<mapsto> D),
          trace := trace w @ [GetSimpleApp req, GetDeployment req, CreateDeployment D]\<rparr>) =
      (Inr S, w\<lparr>deployments := (deployments w)(req \<mapsto> D), services := (services w)(req \<mapsto> S),
          trace := trace w @ [GetSimpleApp req, GetDeployment req, CreateDeployment D,
             GetService req, CreateService S]\<rparr>)"
    using assms k unfolding ensureService_def
    by (simp add: Let_def prim_defs issue_def SetControllerReference_def desiredService_def
          emptyMeta_def FromInt_def int_of_int32_def)
  have i: "ensureIngress scheme cr (w\<lparr>deployments := (deployments w)(req \<mapsto> D), services := (services w)(req \<mapsto> S),
          trace := trace w @ [GetSimpleApp req, GetDeployment req, CreateDeployment D,
             GetService req, CreateService S]\<rparr>) =
      (Inr None, w\<lparr>deployments := (deployments w)(req \<mapsto> D), services := (services w)(req \<mapsto> S),
          trace := trace w @ [GetSimpleApp req, GetDeployment req, CreateDeployment D,
             GetService req, CreateService S]\<rparr>)"
    using assms(7) by (simp add: ensureIngress_def os_Getenv_def)
  have dr: "dep_ReadyReplicas D = 0" using assms by simp
  show ?thesis
    using assms(1,2,10) dr
    by (simp add: Reconcile_def g d s i Status_Update_def issue_def Let_def)
qed

theorem Reconcile_create_then_converge_witness:
  "fst (Reconcile scheme0 (''default'', ''a'') cluster_a) = None \<and>
   deployments (snd (Reconcile scheme0 (''default'', ''a'') cluster_a)) =
     [(''default'', ''a'') \<mapsto>
        \<lparr>dep_meta = \<lparr>Name = ''a'', Namespace = ''default'', UID = [], Labels = [],
            Annotations = [],
            OwnerReferences = [controllerRef ''apps.myapp.io/v1'' app_a]\<rparr>,
          dep_Replicas = Some 2,
          dep_Selector = Some [(''app'', ''a'')],
          dep_TemplateLabels = [(''app'', ''a'')],
          dep_Containers =
            [\<lparr>c_Name = ''app'', c_Image = ''nginx:latest'',
              c_ImagePullPolicy = ''IfNotPresent'', c_Ports = [80]\<rparr>],
          dep_ReadyReplicas = 0\<rparr>] \<and>
   ingresses (snd (Reconcile scheme0 (''default'', ''a'') cluster_a)) = Map.empty \<and>
   length (trace (snd (Reconcile scheme0 (''default'', ''a'') cluster_a))) = 5"
  using Reconcile_create_then_converge
    [of cluster_a "(''default'', ''a'')" app_a scheme0 "''apps.myapp.io/v1''", OF _ _ _ _ _ _ _ _ _ _ _ refl refl]
  by (simp add: example_defs key_of_def os_Getenv_def)

section \<open>Status mirroring\<close>

text \<open>
  Claim C7. On a pass in which the declaration is fetched and the three ensure operations
  succeed, the status writes of the whole pass are: none when the declaration's
  \<open>readyReplicas\<close> equals the ready count of the workload \<open>ensureDeployment\<close>
  returned, and otherwise the single write of the fetched declaration with
  \<open>readyReplicas\<close> replaced by that count (its \<open>serviceStatus\<close> is the fetched one).
  The stored \<open>serviceStatus\<close> of every declaration is what it was before the pass, and
  after a pass without error the stored \<open>readyReplicas\<close> is the workload's ready count.
\<close>

theorem Reconcile_status_mirror:
  assumes "Get_SimpleApp req w = (Inr cr, w1)"
    and "ensureDeployment scheme cr w1 = (Inr d, w2)"
    and "ensureService scheme cr w2 = (Inr s, w3)"
    and "ensureIngress scheme cr w3 = (Inr i, w4)"
    and "key_of (app_meta cr) = req"
  shows "status_writes (calls_since w (snd (Reconcile scheme req w))) =
           (if ReadyReplicas (Status cr) = dep_ReadyReplicas d then []
            else [cr\<lparr>Status := (Status cr)\<lparr>ReadyReplicas := dep_ReadyReplicas d\<rparr>\<rparr>]) \<and>
         (\<forall>k. map_option (\<lambda>x. ServiceStatus (Status x))
                 (simpleapps (snd (Reconcile scheme req w)) k) =
               map_option (\<lambda>x. ServiceStatus (Status x)) (simpleapps w k)) \<and>
         (fst (Reconcile scheme req w) = None \<longrightarrow>
            map_option (\<lambda>x. ReadyReplicas (Status x))
              (simpleapps (snd (Reconcile scheme req w)) req) =
            Some (dep_ReadyReplicas d))"
proof -
  note f1 = Get_SimpleApp_frame [OF assms(1)]
  note f2 = ensureDeployment_frame [OF assms(2)]
  note f3 = ensureService_frame [OF assms(3)]
  note f4 = ensureIngress_frame [OF assms(4)]
  from f1 f2 f3 f4 obtain cs where
    tr: "trace w4 = trace w @ cs" and quiet: "status_writes cs = []"
    by (auto simp: status_writes_none status_writes_def map_filter_def)
  have apps: "simpleapps w4 = simpleapps w" using f1 f2 f3 f4 by simp
  have stored: "simpleapps w req = Some cr" using f1 by simp
  show ?thesis
  proof (cases "ReadyReplicas (Status cr) = dep_ReadyReplicas d")
    case True
    then have "Reconcile scheme req w = (None, w4)"
      using assms by (simp add: Reconcile_def)
    then show ?thesis using True tr quiet apps stored
      by (simp add: calls_since_append)
  next
    case False
    let ?a = "cr\<lparr>Status := (Status cr)\<lparr>ReadyReplicas := dep_ReadyReplicas d\<rparr>\<rparr>"
    have run: "Reconcile scheme req w = Status_Update ?a w4"
      using False assms by (simp add: Reconcile_def Let_def)
    obtain r w5 where su: "Status_Update ?a w4 = (r, w5)" by (cases "Status_Update ?a w4")
    from Status_Update_frame [OF su] tr have "trace w5 = trace w @ (cs @ [UpdateStatus ?a])"
      by simp
    then have calls: "calls_since w w5 = cs @ [UpdateStatus ?a]" by (rule calls_since_append)
    have "simpleapps w4 (key_of (app_meta ?a)) = Some cr" using apps stored assms(5) by simp
    from Status_Update_stored [OF su this] apps assms(5)
    show ?thesis using False quiet by (simp add: run su calls status_writes_def map_filter_def)
  qed
qed

theorem Reconcile_status_mirror_witness:
  "status_writes (calls_since cluster_drifted
       (snd (Reconcile scheme0 (''default'', ''a'') cluster_drifted))) =
     [app_a\<lparr>Status := \<lparr>ReadyReplicas = 5, ServiceStatus = []\<rparr>\<rparr>] \<and>
   map_option (\<lambda>x. ReadyReplicas (Status x))
     (simpleapps (snd (Reconcile scheme0 (''default'', ''a'') cluster_drifted))
        (''default'', ''a'')) = Some 5"
proof -
  have g: "Get_SimpleApp (''default'', ''a'') cluster_drifted =
      (Inr app_a, cluster_drifted\<lparr>trace := [GetSimpleApp (''default'', ''a'')]\<rparr>)"
    by (simp add: Get_SimpleApp_def issue_def example_defs)
  obtain d w2 where d: "ensureDeployment scheme0 app_a
      (cluster_drifted\<lparr>trace := [GetSimpleApp (''default'', ''a'')]\<rparr>) = (Inr d, w2)"
      and dr: "dep_ReadyReplicas d = 5" and f2: "faults w2 = []"
       "services w2 = Map.empty" "environ w2 = []"
    by (simp add: ensureDeployment_def SetControllerReference_def desiredDeployment_def
          example_defs prim_defs Let_def)
  obtain s w3 where s: "ensureService scheme0 app_a w2 = (Inr s, w3)" and f3: "environ w3 = []"
    using f2
    by (simp add: ensureService_def SetControllerReference_def desiredService_def
          example_defs prim_defs Let_def)
  have i: "ensureIngress scheme0 app_a w3 = (Inr None, w3)"
    using f3 by (simp add: ensureIngress_def os_Getenv_def)
  have k: "key_of (app_meta app_a) = (''default'', ''a'')"
    by (simp add: example_defs key_of_def)
  have ok: "fst (Reconcile scheme0 (''default'', ''a'') cluster_drifted) = None"
    by (simp add: Reconcile_def Get_SimpleApp_def Status_Update_def ensureDeployment_def
          ensureService_def ensureIngress_def SetControllerReference_def
          desiredDeployment_def desiredService_def example_defs prim_defs Let_def
          os_Getenv_def)
  from Reconcile_status_mirror [OF g d s i k] dr ok
  show ?thesis by (simp add: example_defs)
qed

section \<open>Owner references\<close>

lemma owned_by_simps [simp]:
  "owned_by scheme cr (GetSimpleApp k)" "owned_by scheme cr (UpdateStatus a)"
  by (simp_all add: owned_by_def)




section \<open>The legacy class annotation\<close>

lemma ensureIngress_class_settled_store:
  assumes "ingresses w (ingress_key cr) = Some i"
    and "ing_IngressClassName i = Some (os_Getenv ''INGRESS_CLASS_NAME'' w)"
  shows "ingresses (snd (ensureIngress scheme cr w)) = ingresses w \<and>
         environ (snd (ensureIngress scheme cr w)) = environ w"
  using assms unfolding ensureIngress_def
  by (auto simp: Let_def prim_defs desiredIngress_def emptyMeta_def ingress_key_def
           dest!: SetControllerReference_key split: all_splits)

lemma ensureIngress_class_settled_iter:
  assumes "ingresses w (ingress_key cr) = Some i"
    and "ing_IngressClassName i = Some (os_Getenv ''INGRESS_CLASS_NAME'' w)"
  shows "ingresses (((\<lambda>v. snd (ensureIngress scheme cr v)) ^^ n) w) = ingresses w \<and>
         environ (((\<lambda>v. snd (ensureIngress scheme cr v)) ^^ n) w) = environ w"
proof (induction n)
  case 0
  show ?case by simp
next
  case (Suc n)
  let ?v = "((\<lambda>v. snd (ensureIngress scheme cr v)) ^^ n) w"
  from Suc assms have "ingresses ?v (ingress_key cr) = Some i"
    "ing_IngressClassName i = Some (os_Getenv ''INGRESS_CLASS_NAME'' ?v)"
    by (simp_all add: os_Getenv_def)
  from ensureIngress_class_settled_store [OF this] Suc show ?case by simp
qed

text \<open>
  Claim C10. Let a route be created by \<open>ensureIngress\<close> under the class \<open>c1\<close> and let
  the configuration then change to another class \<open>c2\<close>. The next run issues one update
  that replaces the class reference alone: the stored route has class \<open>c2\<close> while its
  annotation \<open>kubernetes.io/ingress.class\<close> still reads \<open>c1\<close>. No number of further
  runs under \<open>c2\<close> changes the stored route again, whatever the API answers.
\<close>

theorem ensureIngress_legacy_annotation_stale:
  assumes "ingresses w (ingress_key cr) = None"
    and "faults w = []" and "scheme = Some gv"
    and "c1 \<noteq> []" and "c2 \<noteq> []" and "c1 \<noteq> c2"
    and "w1 = snd (ensureIngress scheme cr (w\<lparr>environ := [(''INGRESS_CLASS_NAME'', c1)]\<rparr>))"
    and "w2 = snd (ensureIngress scheme cr (w1\<lparr>environ := [(''INGRESS_CLASS_NAME'', c2)]\<rparr>))"
  shows "\<exists>i. ingresses w1 (ingress_key cr) = Some i \<and>
           ing_IngressClassName i = Some c1 \<and>
           map_of (Annotations (ing_meta i)) ''kubernetes.io/ingress.class'' = Some c1 \<and>
           ingresses w2 (ingress_key cr) = Some (i\<lparr>ing_IngressClassName := Some c2\<rparr>) \<and>
           calls_since w1 w2 =
             [GetIngress (ingress_key cr),
              UpdateIngress (i\<lparr>ing_IngressClassName := Some c2\<rparr>)] \<and>
           (\<forall>n. ingresses (((\<lambda>v. snd (ensureIngress scheme cr v)) ^^ n) w2) = ingresses w2)"
proof -
  let ?i = "(desiredIngress c1 cr)
      \<lparr>ing_meta := (ing_meta (desiredIngress c1 cr))\<lparr>OwnerReferences := [controllerRef gv cr]\<rparr>\<rparr>"
  have w1: "w1 = w\<lparr>environ := [(''INGRESS_CLASS_NAME'', c1)],
        ingresses := (ingresses w)(ingress_key cr \<mapsto> ?i),
        trace := trace w @ [GetIngress (ingress_key cr), CreateIngress ?i]\<rparr>"
    using assms(1-4) unfolding assms(7) ensureIngress_def
    by (simp add: Let_def prim_defs issue_def SetControllerReference_def desiredIngress_def
          emptyMeta_def ingress_key_def os_Getenv_def)
  have k: "key_of (ing_meta ?i) = ingress_key cr"
    by (simp add: key_of_def desiredIngress_def ingress_key_def emptyMeta_def)
  have run2: "ensureIngress scheme cr (w1\<lparr>environ := [(''INGRESS_CLASS_NAME'', c2)]\<rparr>) =
      (Inr (Some (?i\<lparr>ing_IngressClassName := Some c2\<rparr>)),
       w1\<lparr>environ := [(''INGRESS_CLASS_NAME'', c2)],
          ingresses := (ingresses w1)(ingress_key cr \<mapsto> ?i\<lparr>ing_IngressClassName := Some c2\<rparr>),
          trace := trace w1 @ [GetIngress (ingress_key cr),
             UpdateIngress (?i\<lparr>ing_IngressClassName := Some c2\<rparr>)]\<rparr>)"
    using ensureIngress_existing [of "w1\<lparr>environ := [(''INGRESS_CLASS_NAME'', c2)]\<rparr>" cr ?i c2 scheme gv]
      assms(2,3,5,6) k
    by (simp add: w1 os_Getenv_def desiredIngress_def)
  have w2: "w2 = w1\<lparr>environ := [(''INGRESS_CLASS_NAME'', c2)],
          ingresses := (ingresses w1)(ingress_key cr \<mapsto> ?i\<lparr>ing_IngressClassName := Some c2\<rparr>),
          trace := trace w1 @ [GetIngress (ingress_key cr),
             UpdateIngress (?i\<lparr>ing_IngressClassName := Some c2\<rparr>)]\<rparr>"
    unfolding assms(8) run2 by simp
  have settled: "ingresses w2 (ingress_key cr) = Some (?i\<lparr>ing_IngressClassName := Some c2\<rparr>)"
    "ing_IngressClassName (?i\<lparr>ing_IngressClassName := Some c2\<rparr>) =
       Some (os_Getenv ''INGRESS_CLASS_NAME'' w2)"
    by (simp_all add: w2 os_Getenv_def)
  have iter: "\<forall>n. ingresses (((\<lambda>v. snd (ensureIngress scheme cr v)) ^^ n) w2) = ingresses w2"
    using ensureIngress_class_settled_iter [OF settled] by blast
  have "ingresses w1 (ingress_key cr) = Some ?i" by (simp add: w1)
  moreover have "ing_IngressClassName ?i = Some c1" by (simp add: desiredIngress_def)
  moreover have "map_of (Annotations (ing_meta ?i)) ''kubernetes.io/ingress.class'' = Some c1"
    by (simp add: desiredIngress_def emptyMeta_def)
  moreover have "calls_since w1 w2 = [GetIngress (ingress_key cr),
              UpdateIngress (?i\<lparr>ing_IngressClassName := Some c2\<rparr>)]"
    by (simp add: w2 calls_since_def)
  ultimately show ?thesis using settled(1) iter by blast
qed

theorem ensureIngress_legacy_annotation_stale_witness:
  "\<exists>i. ingresses
          (snd (ensureIngress scheme0 app_a
             ((snd (ensureIngress scheme0 app_a
                 (cluster_a\<lparr>environ := [(''INGRESS_CLASS_NAME'', ''nginx'')]\<rparr>)))
              \<lparr>environ := [(''INGRESS_CLASS_NAME'', ''traefik'')]\<rparr>)))
          (''default'', ''a-ingress'') = Some i \<and>
       ing_IngressClassName i = Some ''traefik'' \<and>
       map_of (Annotations (ing_meta i)) ''kubernetes.io/ingress.class'' = Some ''nginx''"
proof -
  from ensureIngress_legacy_annotation_stale
    [of cluster_a app_a scheme0 "''apps.myapp.io/v1''" "''nginx''" "''traefik''", OF _ _ _ _ _ _ refl refl]
  obtain i where
    "ingresses
          (snd (ensureIngress scheme0 app_a
             ((snd (ensureIngress scheme0 app_a
                 (cluster_a\<lparr>environ := [(''INGRESS_CLASS_NAME'', ''nginx'')]\<rparr>)))
              \<lparr>environ := [(''INGRESS_CLASS_NAME'', ''traefik'')]\<rparr>)))
          (ingress_key app_a) = Some (i\<lparr>ing_IngressClassName := Some ''traefik''\<rparr>)"
    "map_of (Annotations (ing_meta i)) ''kubernetes.io/ingress.class'' = Some ''nginx''"
    by (auto simp: example_defs ingress_key_def)
  then show ?thesis by (auto simp: example_defs ingress_key_def)
qed

end
